theory Spec2Isabelle
  imports Complex_Main "HOL-Library.AList"
begin

section \<open>Text\<close>

text \<open>
  Python strings are modelled by \<^typ>\<open>string\<close>; a character stands for the code point
  of the same number, so the model covers the texts whose code points are below 256.
  The only operations the program applies to a text are the emptiness test of
  \<^verbatim>\<open>if user_response:\<close>, \<^verbatim>\<open>str.strip()\<close>, \<^verbatim>\<open>str.format\<close> and concatenation.
\<close>

definition isspace :: "char \<Rightarrow> bool" where
  \<comment> \<open>\<^verbatim>\<open>str.isspace\<close> on one character, for the code points below 256.\<close>
  "isspace c = (of_char c \<in> set [9, 10, 11, 12, 13, 28, 29, 30, 31, 32, 133, 160 :: nat])"

definition strip :: "string \<Rightarrow> string" where
  \<comment> \<open>\<^verbatim>\<open>s.strip()\<close>: leading and trailing whitespace removed.\<close>
  "strip s = rev (dropWhile isspace (rev (dropWhile isspace s)))"

text \<open>
  \<^verbatim>\<open>template.format(**kw)\<close> with keyword arguments only, as both call sites use it.
  The scanner reads the template from left to right: \<^verbatim>\<open>{{\<close> and \<^verbatim>\<open>}}\<close> are the escaped
  braces, \<^verbatim>\<open>{name}\<close> is replaced by the argument of that name. \<open>None\<close> stands for any
  exception the call raises: a lone brace, a field with no name or a numeric name (there
  are no positional arguments), a name that is no keyword argument. Fields with a
  conversion, a format specification, an attribute or an index are outside the model
  (they also yield \<open>None\<close>); neither template of the program has one.
\<close>

datatype mode = Text | Opened | Closed | Field string

fun substitute :: "(string \<times> string) list \<Rightarrow> mode \<Rightarrow> string \<Rightarrow> string option" where
  "substitute kw Text [] = Some []"
| "substitute kw Text (c # cs) =
     (if c = CHR ''{'' then substitute kw Opened cs
      else if c = CHR ''}'' then substitute kw Closed cs
      else map_option ((#) c) (substitute kw Text cs))"
| "substitute kw Opened [] = None"
| "substitute kw Opened (c # cs) =
     (if c = CHR ''{'' then map_option ((#) c) (substitute kw Text cs)
      else if c = CHR ''}'' then None
      else if c \<in> set ''!:.[0123456789'' then None
      else substitute kw (Field [c]) cs)"
| "substitute kw Closed [] = None"
| "substitute kw Closed (c # cs) =
     (if c = CHR ''}'' then map_option ((#) c) (substitute kw Text cs) else None)"
| "substitute kw (Field n) [] = None"
| "substitute kw (Field n) (c # cs) =
     (if c = CHR ''}''
      then (case map_of kw n of
              None \<Rightarrow> None
            | Some v \<Rightarrow> map_option ((@) v) (substitute kw Text cs))
      else if c \<in> set ''!:.[{'' then None
      else substitute kw (Field (n @ [c])) cs)"

definition format :: "string \<Rightarrow> (string \<times> string) list \<Rightarrow> string option" where
  "format template kw = substitute kw Text template"

section \<open>JSON values\<close>

text \<open>
  The values \<^verbatim>\<open>json.loads\<close> yields and \<^verbatim>\<open>json.dumps\<close> prints. A number is kept as the
  text \<^verbatim>\<open>json.dumps\<close> prints for it; a dictionary is the list of its items in insertion
  order.
\<close>

datatype pyval =
    PNone
  | PBool bool
  | PNum string
  | PStr string
  | PList "pyval list"
  | PDict "(string \<times> pyval) list"

definition hex_digit :: "nat \<Rightarrow> char" where
  "hex_digit n = ''0123456789abcdef'' ! (n mod 16)"

definition escape_char :: "char \<Rightarrow> string" where
  \<comment> \<open>The encoder of \<^verbatim>\<open>json.dumps\<close> with \<^verbatim>\<open>ensure_ascii=True\<close> (the default).\<close>
  "escape_char c =
     (if c = CHR 0x22 then [CHR 0x5C, CHR 0x22]
      else if c = CHR 0x5C then [CHR 0x5C, CHR 0x5C]
      else if c = CHR 0x08 then [CHR 0x5C, CHR ''b'']
      else if c = CHR 0x0C then [CHR 0x5C, CHR ''f'']
      else if c = CHR 0x0A then [CHR 0x5C, CHR ''n'']
      else if c = CHR 0x0D then [CHR 0x5C, CHR ''r'']
      else if c = CHR 0x09 then [CHR 0x5C, CHR ''t'']
      else if 32 \<le> (of_char c :: nat) \<and> (of_char c :: nat) \<le> 126 then [c]
      else [CHR 0x5C, CHR ''u'', CHR ''0'', CHR ''0'',
            hex_digit (of_char c div 16), hex_digit (of_char c)])"

definition quote :: "string \<Rightarrow> string" where
  "quote s = [CHR 0x22] @ concat (map escape_char s) @ [CHR 0x22]"

fun join :: "string \<Rightarrow> string list \<Rightarrow> string" where
  "join sep [] = []"
| "join sep [x] = x"
| "join sep (x # y # ys) = x @ sep @ join sep (y # ys)"

fun dumps_text :: "pyval \<Rightarrow> string" where
  \<comment> \<open>The text \<^verbatim>\<open>json.dumps(v)\<close> returns, when it returns.\<close>
  "dumps_text PNone = ''null''"
| "dumps_text (PBool b) = (if b then ''true'' else ''false'')"
| "dumps_text (PNum r) = r"
| "dumps_text (PStr s) = quote s"
| "dumps_text (PList vs) = ''['' @ join '', '' (map dumps_text vs) @ '']''"
| "dumps_text (PDict kvs) =
     ''{'' @ join '', '' (map (\<lambda>(k, v). quote k @ '': '' @ dumps_text v) kvs) @ ''}''"

text \<open>
  \<^verbatim>\<open>json.loads\<close> and \<^verbatim>\<open>json.dumps\<close> are library code and both can raise; the model
  takes them as the parameters \<open>loads\<close> and \<open>dumps\<close>, where \<open>None\<close> stands for the exception
  the call raises: for \<open>loads\<close> a text that is not JSON or is nested too deep, for \<open>dumps\<close>
  a value nested deeper than the recursion limit of the interpreter lets the encoder go
  (\<^verbatim>\<open>RecursionError\<close>).
\<close>

type_synonym decoder = "string \<Rightarrow> pyval option"

type_synonym encoder = "pyval \<Rightarrow> string option"

section \<open>The text-generation service\<close>

text \<open>
  One call of \<^verbatim>\<open>self.groq_client.chat.completions.create(...)\<close> followed by
  \<^verbatim>\<open>.choices[0].message.content\<close>. \<open>Raised\<close> is any exception on the way to the content
  (transport failure, an empty list of choices, content \<^verbatim>\<open>None\<close>, on which \<^verbatim>\<open>.strip()\<close>
  and \<^verbatim>\<open>json.loads\<close> raise inside the same \<^verbatim>\<open>try\<close>); \<open>Completion c\<close> is the content text.
\<close>

record message =
  role :: string
  content :: string

record request =
  model :: string
  messages :: "message list"
  response_format :: "string option"
  max_tokens :: nat
  temperature :: rat

datatype reply = Raised | Completion string

type_synonym client = "request \<Rightarrow> reply"

section \<open>The three generators\<close>

definition system_prompt :: string where
  \<open>system_prompt =
     ''\<newline>'' @
     ''        You are a compassionate career counselor and narrative guide. \<newline>'' @
     ''        Your goal is to ask a single, delicate question that:\<newline>'' @
     ''        - Feels warm and non-threatening\<newline>'' @
     ''        - Invites genuine, vulnerable reflection\<newline>'' @
     ''        - Uncovers hidden personal narratives\<newline>'' @
     ''        - Creates a safe emotional space for exploration\<newline>'' @
     ''\<newline>'' @
     ''        Questioning Principles:\<newline>'' @
     ''        1. Questions should be:\<newline>'' @
     ''           - Conversational in tone\<newline>'' @
     ''           - Open-ended but focused\<newline>'' @
     ''           - Emotionally intelligent\<newline>'' @
     ''           - Subtly provocative\<newline>'' @
     ''\<newline>'' @
     ''        2. Approach:\<newline>'' @
     ''           - Start with seemingly simple inquiries\<newline>'' @
     ''           - Allow for organic storytelling\<newline>'' @
     ''           - Create space for unexpected revelations\<newline>'' @
     ''\<newline>'' @
     ''\<newline>'' @
     ''        Design a question that feels like a caring friend \<newline>'' @
     ''        genuinely interested in understanding someone's journey. Make the questions small that lead to deep understanding of the response.\<newline>'' @
     ''        ''\<close>

definition question_request :: "string option \<Rightarrow> request option" where
  \<comment> \<open>The keyword arguments of \<^verbatim>\<open>create\<close> in \<^verbatim>\<open>_generate_compassionate_question\<close>; \<open>None\<close>
      when building them raises. \<^verbatim>\<open>context or "Initial gentle exploration"\<close> takes the
      default for \<^verbatim>\<open>None\<close> and for the empty text.\<close>
  "question_request context =
     map_option
       (\<lambda>system_content.
          \<lparr>model = ''llama3-70b-8192'',
           messages =
             [\<lparr>role = ''system'', content = system_content\<rparr>,
              \<lparr>role = ''user'',
               content = ''Craft a question that feels like a warm, curious invitation to share.''\<rparr>],
           response_format = None,
           max_tokens = 300,
           temperature = 5 / 10\<rparr>)
       (format system_prompt
          [(''context'',
            (case context of
               None \<Rightarrow> ''Initial gentle exploration''
             | Some c \<Rightarrow> if c = [] then ''Initial gentle exploration'' else c))])"

definition fallback_question :: string where
  "fallback_question = ''What small moment in your life has quietly shaped who you are today?''"

definition generate_compassionate_question :: "client \<Rightarrow> string option \<Rightarrow> string" where
  \<comment> \<open>\<^verbatim>\<open>_generate_compassionate_question(self, context=None)\<close>\<close>
  "generate_compassionate_question groq context =
     (case question_request context of
        None \<Rightarrow> fallback_question
      | Some rq \<Rightarrow>
          (case groq rq of
             Raised \<Rightarrow> fallback_question
           | Completion c \<Rightarrow> strip c))"

definition analysis_prompt :: string where
  \<open>analysis_prompt =
     ''\<newline>'' @
     ''        Compassionate Narrative Analysis:\<newline>'' @
     ''        Please provide your analysis in JSON format with the following structure:\<newline>'' @
     ''        {\<newline>'' @
     ''            "emotional_themes": [],\<newline>'' @
     ''            "unspoken_motivations": [],\<newline>'' @
     ''            "growth_indicators": [],\<newline>'' @
     ''            "narrative_threads": []\<newline>'' @
     ''        }\<newline>'' @
     ''        \<newline>'' @
     ''        Softly Decode Response Dimensions:\<newline>'' @
     ''        1. Emotional Undertones\<newline>'' @
     ''        2. Unspoken Motivations\<newline>'' @
     ''        3. Personal Growth Indicators\<newline>'' @
     ''        4. Potential Narrative Threads\<newline>'' @
     ''\<newline>'' @
     ''        Analysis Approach:\<newline>'' @
     ''        - Listen between the lines\<newline>'' @
     ''        - Identify subtle personal transformations\<newline>'' @
     ''        - Recognize potential for deeper exploration\<newline>'' @
     ''        - Respect the vulnerability of sharing\<newline>'' @
     ''\<newline>'' @
     ''        Provide Gentle Insights:\<newline>'' @
     ''        - Emerging Personal Themes\<newline>'' @
     ''        - Potential Narrative Directions\<newline>'' @
     ''        - Areas of Potential Deeper Reflection\<newline>'' @
     ''        ''\<close>

definition analysis_request :: "string \<Rightarrow> request" where
  "analysis_request response =
     \<lparr>model = ''llama3-70b-8192'',
      messages =
        [\<lparr>role = ''system'', content = analysis_prompt\<rparr>,
         \<lparr>role = ''user'',
          content =
            ''Please analyze the following reflection and respond in JSON format:\<newline>''
            @ response\<rparr>],
      response_format = Some ''json_object'',
      max_tokens = 500,
      temperature = 6 / 10\<rparr>"

definition fallback_insight :: pyval where
  "fallback_insight =
     PDict
       [(''emotional_themes'', PList [PStr ''Personal Growth'', PStr ''Resilience'']),
        (''unspoken_motivations'', PList [PStr ''Self-improvement'']),
        (''growth_indicators'', PList [PStr ''Reflection'']),
        (''narrative_threads'', PList [PStr ''Personal Journey''])]"

definition analyze_response_depth :: "decoder \<Rightarrow> client \<Rightarrow> string \<Rightarrow> pyval" where
  \<comment> \<open>\<^verbatim>\<open>_analyze_response_depth(self, response)\<close>: the decoded content is returned as it
      is; both the call and the decoding are inside the \<^verbatim>\<open>try\<close>.\<close>
  "analyze_response_depth loads groq response =
     (case groq (analysis_request response) of
        Raised \<Rightarrow> fallback_insight
      | Completion c \<Rightarrow>
          (case loads c of
             None \<Rightarrow> fallback_insight
           | Some v \<Rightarrow> v))"

definition essay_prompt :: string where
  \<open>essay_prompt =
     ''\<newline>'' @
     ''        Narrative Intimacy: Transform Personal Reflections \<newline>'' @
     ''        into a Profoundly Authentic Master's Application Essay\<newline>'' @
     ''\<newline>'' @
     ''        Storytelling Essence:\<newline>'' @
     ''        - Reveal the soul behind the achievements\<newline>'' @
     ''        - Connect personal journey to professional aspiration\<newline>'' @
     ''        - Create an emotionally resonant narrative\<newline>'' @
     ''        - Demonstrate vulnerability and strength\<newline>'' @
     ''\<newline>'' @
     ''        Narrative Construction:\<newline>'' @
     ''        1. Opening: Intimate Personal Revelation\<newline>'' @
     ''        2. Middle: Bridge Personal Growth to Professional Vision\<newline>'' @
     ''        3. Conclusion: Illuminate Potential for Transformative Leadership\<newline>'' @
     ''\<newline>'' @
     ''        Candidate's Intimate Insights: {insights}\<newline>'' @
     ''\<newline>'' @
     ''        Create an essay that:\<newline>'' @
     ''        - Feels deeply personal\<newline>'' @
     ''        - Demonstrates intellectual and emotional depth\<newline>'' @
     ''        - Shows potential beyond traditional metrics\<newline>'' @
     ''        - Leaves a lasting emotional impression\<newline>'' @
     ''        ''\<close>

definition essay_request :: "encoder \<Rightarrow> pyval list \<Rightarrow> request option" where
  \<comment> \<open>The keyword arguments of \<^verbatim>\<open>create\<close> in \<^verbatim>\<open>_generate_intimate_essay\<close>; \<open>None\<close> when
      building them raises: \<^verbatim>\<open>json.dumps(insights)\<close> first, then \<^verbatim>\<open>essay_prompt.format\<close>.\<close>
  "essay_request dumps insights =
     (case dumps (PList insights) of
        None \<Rightarrow> None
      | Some serialized \<Rightarrow>
          map_option
            (\<lambda>system_content.
               \<lparr>model = ''llama3-70b-8192'',
                messages =
                  [\<lparr>role = ''system'', content = system_content\<rparr>,
                   \<lparr>role = ''user'',
                    content = ''Weave a narrative that reveals the candidate's true potential.''\<rparr>],
                response_format = None,
                max_tokens = 1500,
                temperature = 8 / 10\<rparr>)
            (format essay_prompt [(''insights'', serialized)]))"

definition fallback_essay :: string where
  "fallback_essay =
     ''A personal reflection on growth, potential, and the transformative power of continuous learning.''"

definition generate_intimate_essay :: "encoder \<Rightarrow> client \<Rightarrow> pyval list \<Rightarrow> string" where
  \<comment> \<open>\<^verbatim>\<open>_generate_intimate_essay(self, insights)\<close>: the request is built inside the
      \<^verbatim>\<open>try\<close>, so when that raises no call is made and the fallback is returned.\<close>
  "generate_intimate_essay dumps groq insights =
     (case essay_request dumps insights of
        None \<Rightarrow> fallback_essay
      | Some rq \<Rightarrow>
          (case groq rq of
             Raised \<Rightarrow> fallback_essay
           | Completion c \<Rightarrow> strip c))"

section \<open>The session and one run of the script\<close>

text \<open>
  \<^verbatim>\<open>st.session_state\<close>. The script is the only writer of its keys, writes the five of
  \<^verbatim>\<open>_initialize_conversation_state\<close> together in the first run and deletes none, so the
  store is either empty (\<open>None\<close> below) or holds all five. \<^verbatim>\<open>current_question\<close> is an
  attribute the initialisation does not create: \<open>None\<close> in that field is the missing
  attribute. \<^verbatim>\<open>responses\<close> is the dictionary as the list of its items.
\<close>

record session =
  conversation_id :: string
  current_phase :: string
  responses :: "(nat \<times> string) list"
  explored_depths :: "pyval list"
  essay_draft :: "string option"
  current_question :: "string option"

text \<open>
  What one run of the script reads from outside: the identifier \<^verbatim>\<open>uuid.uuid4()\<close> would
  give, the content of the text area, whether the button was pressed, and how the service
  answers at each of the three places a run can call it (line 186; line 200; line 208 or
  line 213, of which a run reaches one).
\<close>

record turn =
  fresh_uuid :: string
  user_response :: string
  button :: bool
  groq_opening :: client
  groq_analysis :: client
  groq_followup :: client

text \<open>
  The two exceptions that can leave \<^verbatim>\<open>interactive_exploration\<close>: line 188 reads
  \<^verbatim>\<open>current_question\<close>, which raises when the attribute is missing, and line 209 calls
  \<^verbatim>\<open>json.dumps\<close> outside any \<^verbatim>\<open>try\<close>. An exception ends the run; the store keeps what
  the run wrote before it. A run is therefore modelled by the store it leaves and the
  exception it ended with, if any.
\<close>

datatype error = AttributeError | EncoderError

definition initialize_conversation_state :: "string \<Rightarrow> session option \<Rightarrow> session" where
  \<comment> \<open>\<^verbatim>\<open>_initialize_conversation_state(self)\<close>: a key that is present is left alone.\<close>
  "initialize_conversation_state uuid store =
     (case store of
        None \<Rightarrow>
          \<lparr>conversation_id = uuid,
           current_phase = ''initial_exploration'',
           responses = [],
           explored_depths = [],
           essay_draft = None,
           current_question = None\<rparr>
      | Some s \<Rightarrow> s)"

definition continue_exploring ::
  "decoder \<Rightarrow> encoder \<Rightarrow> turn \<Rightarrow> session \<Rightarrow> session \<times> error option" where
  \<comment> \<open>Lines 194 to 217 of \<^verbatim>\<open>interactive_exploration\<close>: the body of
      \<^verbatim>\<open>if st.button("Continue Exploring"):\<close>. The argument of line 209 is evaluated
      before the generator is called.\<close>
  "continue_exploring loads dumps t s =
     (if user_response t \<noteq> [] then
        let current_response_key = length (responses s);
            s1 = s\<lparr>responses :=
                     AList.update current_response_key (user_response t) (responses s)\<rparr>;
            response_analysis =
              analyze_response_depth loads (groq_analysis t) (user_response t);
            s2 = s1\<lparr>explored_depths := explored_depths s1 @ [response_analysis]\<rparr>
        in if length (explored_depths s2) < 5
           then (case dumps response_analysis of
                   None \<Rightarrow> (s2, Some EncoderError)
                 | Some serialized \<Rightarrow>
                     (s2\<lparr>current_question :=
                           Some (generate_compassionate_question (groq_followup t)
                                   (Some serialized))\<rparr>,
                      None))
           else (s2\<lparr>essay_draft :=
                       Some (generate_intimate_essay dumps (groq_followup t)
                               (explored_depths s2))\<rparr>,
                 None)
      else (s, None))"

definition interactive_exploration ::
  "decoder \<Rightarrow> encoder \<Rightarrow> turn \<Rightarrow> session \<Rightarrow> session \<times> error option" where
  \<comment> \<open>\<^verbatim>\<open>interactive_exploration(self)\<close>\<close>
  "interactive_exploration loads dumps t s =
     (let s1 = (if current_phase s = ''initial_exploration''
                then s\<lparr>current_question :=
                         Some (generate_compassionate_question (groq_opening t) None)\<rparr>
                else s)
      in case current_question s1 of
           None \<Rightarrow> (s1, Some AttributeError)
         | Some shown \<Rightarrow>
             (if button t then continue_exploring loads dumps t s1 else (s1, None)))"

definition main :: "decoder \<Rightarrow> encoder \<Rightarrow> turn \<Rightarrow> session option \<Rightarrow> session \<times> error option" where
  \<comment> \<open>\<^verbatim>\<open>main()\<close>: the constructor initialises the store, then the page runs.\<close>
  "main loads dumps t store =
     interactive_exploration loads dumps t
       (initialize_conversation_state (fresh_uuid t) store)"

text \<open>
  The script runs once per interaction, each run on the store the last one left.
  \<open>reruns\<close> is the store after a sequence of runs and \<open>exceptions\<close> the exceptions those
  runs ended with. The session is taken to go on after a run that raised, so the stores
  of the model include every store the program reaches.
\<close>

fun reruns :: "decoder \<Rightarrow> encoder \<Rightarrow> session option \<Rightarrow> turn list \<Rightarrow> session option" where
  "reruns loads dumps store [] = store"
| "reruns loads dumps store (t # ts) =
     reruns loads dumps (Some (fst (main loads dumps t store))) ts"


section \<open>Notions used to state the properties\<close>

text \<open>
  A run takes a submission when the button was pressed and the text area is not empty
  (lines 193 and 194).
\<close>

definition accepted :: "turn \<Rightarrow> bool" where
  "accepted t = (button t \<and> user_response t \<noteq> [])"

definition insights_of :: "session option \<Rightarrow> pyval list" where
  "insights_of store = (case store of None \<Rightarrow> [] | Some s \<Rightarrow> explored_depths s)"

text \<open>
  What the proofs below carry from run to run: no line of the script has written
  \<^verbatim>\<open>current_phase\<close>, the keys of \<^verbatim>\<open>responses\<close> are \<open>0, \<dots>, n - 1\<close> for \<open>n\<close> recorded
  insights, and the essay is there exactly from the fifth insight on.
\<close>

definition settled :: "session \<Rightarrow> bool" where
  "settled s =
     (current_phase s = ''initial_exploration'' \<and>
      map fst (responses s) = [0..<length (explored_depths s)] \<and>
      (essay_draft s = None) = (length (explored_depths s) < 5))"

definition settled_store :: "session option \<Rightarrow> bool" where
  "settled_store store = (case store of None \<Rightarrow> True | Some s \<Rightarrow> settled s)"

text \<open>A text with no brace: \<^verbatim>\<open>str.format\<close> returns it as it is.\<close>

definition plain :: "string \<Rightarrow> bool" where
  "plain s = list_all (\<lambda>c. c \<noteq> CHR ''{'' \<and> c \<noteq> CHR ''}'') s"

text \<open>
  The schema of an insight record, in the words of the specification: a dictionary with
  exactly the four fields, each a list of labels.
\<close>

definition insight_fields :: "string list" where
  "insight_fields =
     [''emotional_themes'', ''unspoken_motivations'', ''growth_indicators'', ''narrative_threads'']"

definition is_insight_record :: "pyval \<Rightarrow> bool" where
  "is_insight_record v =
     (case v of
        PDict items \<Rightarrow>
          distinct (map fst items) \<and> set (map fst items) = set insight_fields \<and>
          list_all (\<lambda>(k, x). case x of PList labels \<Rightarrow> True | _ \<Rightarrow> False) items
      | _ \<Rightarrow> False)"

text \<open>
  Services for the examples: one that raises on every call, one that answers every call
  with the same text. \<open>loads_sample\<close> agrees with \<^verbatim>\<open>json.loads\<close> on the three texts
  the examples decode: the two JSON objects of its table and \<^verbatim>\<open>not json\<close>, on which
  \<^verbatim>\<open>json.loads\<close> raises. No example applies it to another text.
  \<open>dumps_within limit\<close> is \<^verbatim>\<open>json.dumps\<close> under an interpreter that lets the encoder
  descend \<open>limit\<close> levels: deeper values raise. \<open>nested n\<close> is the value of the text
  \<^verbatim>\<open>[[...[]...]]\<close> with \<open>n + 1\<close> pairs of brackets.
\<close>

fun depth :: "pyval \<Rightarrow> nat" where
  "depth (PList vs) = Suc (fold max (map depth vs) 0)"
| "depth (PDict kvs) = Suc (fold max (map (\<lambda>(k, v). depth v) kvs) 0)"
| "depth v = 0"

definition dumps_within :: "nat \<Rightarrow> encoder" where
  "dumps_within limit v = (if depth v \<le> limit then Some (dumps_text v) else None)"

fun nested :: "nat \<Rightarrow> pyval" where
  "nested 0 = PList []"
| "nested (Suc n) = PList [nested n]"

definition down :: client where
  "down rq = Raised"

definition answers :: "string \<Rightarrow> client" where
  "answers reply_text rq = Completion reply_text"

definition loads_sample :: decoder where
  \<open>loads_sample reply_text =
     map_of
       [(''{}'', PDict []),
        (''{"emotional_themes": ["Joy"]}'', PDict [(''emotional_themes'', PList [PStr ''Joy''])])]
       reply_text\<close>

text \<open>
  Two kinds of run for the examples: a page load with an empty text area and no press of
  the button, and a press of the button with a text typed, while the opening call of the
  run fails.
\<close>

definition visit :: "client \<Rightarrow> turn" where
  "visit groq =
     \<lparr>fresh_uuid = ''3f2b8c1e-5d4a-4e6f-9a7b-1c2d3e4f5a6b'', user_response = [], button = False,
      groq_opening = groq, groq_analysis = down, groq_followup = down\<rparr>"

definition submission :: "string \<Rightarrow> client \<Rightarrow> client \<Rightarrow> turn" where
  "submission typed analysis followup =
     \<lparr>fresh_uuid = ''3f2b8c1e-5d4a-4e6f-9a7b-1c2d3e4f5a6b'', user_response = typed, button = True,
      groq_opening = down, groq_analysis = analysis, groq_followup = followup\<rparr>"

text \<open>
  The example session: the service is down for every opening question and every
  analysis, so each insight is the fallback record; it answers the follow-up calls.
  \<open>opened\<close>, \<open>after_four\<close>, \<open>after_five\<close> and \<open>after_six\<close> are the stores the runs leave.
\<close>

definition four_submissions :: "turn list" where
  "four_submissions =
     [submission ''a'' down (answers ''And then?''),
      submission ''b'' down (answers ''And then?''),
      submission ''c'' down (answers ''And then?''),
      submission ''d'' down (answers ''And then?'')]"

definition fifth_submission :: turn where
  "fifth_submission = submission ''e'' down (answers ''Essay one'')"

definition sixth_submission :: turn where
  "sixth_submission = submission ''f'' down (answers ''Essay two'')"

definition fifth_after_opening :: turn where
  \<comment> \<open>The fifth submission in a run whose opening call the service answers.\<close>
  "fifth_after_opening =
     \<lparr>fresh_uuid = ''3f2b8c1e-5d4a-4e6f-9a7b-1c2d3e4f5a6b'', user_response = ''e'',
      button = True, groq_opening = answers ''What matters to you?'',
      groq_analysis = down, groq_followup = answers ''Essay one''\<rparr>"

definition opened :: session where
  "opened =
     \<lparr>conversation_id = ''3f2b8c1e-5d4a-4e6f-9a7b-1c2d3e4f5a6b'',
      current_phase = ''initial_exploration'',
      responses = [],
      explored_depths = [],
      essay_draft = None,
      current_question = Some fallback_question\<rparr>"

definition after_four :: session where
  "after_four =
     \<lparr>conversation_id = ''3f2b8c1e-5d4a-4e6f-9a7b-1c2d3e4f5a6b'',
      current_phase = ''initial_exploration'',
      responses = [(0, ''a''), (1, ''b''), (2, ''c''), (3, ''d'')],
      explored_depths = [fallback_insight, fallback_insight, fallback_insight, fallback_insight],
      essay_draft = None,
      current_question = Some ''And then?''\<rparr>"

definition after_five :: session where
  "after_five =
     \<lparr>conversation_id = ''3f2b8c1e-5d4a-4e6f-9a7b-1c2d3e4f5a6b'',
      current_phase = ''initial_exploration'',
      responses = [(0, ''a''), (1, ''b''), (2, ''c''), (3, ''d''), (4, ''e'')],
      explored_depths =
        [fallback_insight, fallback_insight, fallback_insight, fallback_insight,
         fallback_insight],
      essay_draft = Some ''Essay one'',
      current_question = Some fallback_question\<rparr>"

definition after_six :: session where
  "after_six =
     \<lparr>conversation_id = ''3f2b8c1e-5d4a-4e6f-9a7b-1c2d3e4f5a6b'',
      current_phase = ''initial_exploration'',
      responses = [(0, ''a''), (1, ''b''), (2, ''c''), (3, ''d''), (4, ''e''), (5, ''f'')],
      explored_depths =
        [fallback_insight, fallback_insight, fallback_insight, fallback_insight,
         fallback_insight, fallback_insight],
      essay_draft = Some ''Essay two'',
      current_question = Some fallback_question\<rparr>"

section \<open>The templates\<close>

lemma substitute_plain:
  "plain xs \<Longrightarrow>
   substitute kw Text (xs @ ys) = map_option ((@) xs) (substitute kw Text ys)"
proof (induction xs)
  case Nil
  show ?case by (cases "substitute kw Text ys") simp_all
next
  case (Cons a xs)
  then show ?case by (cases "substitute kw Text ys") (simp_all add: plain_def)
qed

lemma system_prompt_plain: "plain system_prompt"
  by (simp add: system_prompt_def plain_def)

lemma format_system_prompt: "format system_prompt kw = Some system_prompt"
  using substitute_plain[OF system_prompt_plain, of kw "[]"] by (simp add: format_def)

lemma substitute_insights:
  "substitute kw Text (''{insights}'' @ ys) =
     (case map_of kw ''insights'' of
        None \<Rightarrow> None
      | Some v \<Rightarrow> map_option ((@) v) (substitute kw Text ys))"
  by simp

lemma essay_prompt_split:
  "essay_prompt = take 628 essay_prompt @ ''{insights}'' @ drop 638 essay_prompt"
  by (simp add: essay_prompt_def)

lemma essay_prompt_head: "plain (take 628 essay_prompt)"
  by (simp add: essay_prompt_def plain_def)

lemma essay_prompt_tail: "plain (drop 638 essay_prompt)"
  by (simp add: essay_prompt_def plain_def)

lemma format_essay_prompt:
  "format essay_prompt [(''insights'', v)] =
     Some (take 628 essay_prompt @ v @ drop 638 essay_prompt)"
proof -
  have "substitute [(''insights'', v)] Text (drop 638 essay_prompt) = Some (drop 638 essay_prompt)"
    using substitute_plain[OF essay_prompt_tail, of _ "[]"] by simp
  then have "substitute [(''insights'', v)] Text (''{insights}'' @ drop 638 essay_prompt)
      = Some (v @ drop 638 essay_prompt)"
    by (simp only: substitute_insights) simp
  then have "substitute [(''insights'', v)] Text
      (take 628 essay_prompt @ ''{insights}'' @ drop 638 essay_prompt)
      = Some (take 628 essay_prompt @ v @ drop 638 essay_prompt)"
    by (simp only: substitute_plain[OF essay_prompt_head]) simp
  then show ?thesis
    unfolding format_def using essay_prompt_split by simp
qed

section \<open>The generators\<close>

lemma question_request_any: "question_request ctx = question_request None"
  by (simp add: question_request_def format_system_prompt)

lemma question_request_defined: "\<exists>rq. question_request None = Some rq"
  by (simp add: question_request_def format_system_prompt)

lemma essay_request_None: "(essay_request dumps insights = None) = (dumps (PList insights) = None)"
  by (simp add: essay_request_def format_essay_prompt split: option.split)

lemma generate_compassionate_question_eq:
  "generate_compassionate_question groq ctx =
     (case groq (the (question_request None)) of
        Raised \<Rightarrow> fallback_question
      | Completion c \<Rightarrow> strip c)"
  using question_request_defined
  by (auto simp: generate_compassionate_question_def question_request_any[of ctx])

lemma generate_intimate_essay_eq:
  "generate_intimate_essay dumps groq insights =
     (if dumps (PList insights) = None then fallback_essay
      else case groq (the (essay_request dumps insights)) of
             Raised \<Rightarrow> fallback_essay
           | Completion c \<Rightarrow> strip c)"
  using essay_request_None[of dumps insights]
  by (auto simp: generate_intimate_essay_def)

lemma strip_blank: "(strip s = []) = list_all isspace s"
proof
  assume "strip s = []"
  then have all: "\<forall>x\<in>set (dropWhile isspace s). isspace x"
    by (simp add: strip_def)
  have "dropWhile isspace s = []"
  proof (rule ccontr)
    assume ne: "dropWhile isspace s \<noteq> []"
    then have "\<not> isspace (hd (dropWhile isspace s))" by (rule hd_dropWhile)
    moreover have "hd (dropWhile isspace s) \<in> set (dropWhile isspace s)"
      using ne by simp
    ultimately show False using all by blast
  qed
  then show "list_all isspace s"
    by (simp add: list_all_iff)
next
  assume "list_all isspace s"
  then have "dropWhile isspace s = []"
    by (simp add: list_all_iff)
  then show "strip s = []" by (simp add: strip_def del: dropWhile_eq_Nil_conv)
qed

section \<open>One submission\<close>

lemma update_fresh_key: "k \<notin> set (map fst al) \<Longrightarrow> AList.update k v al = al @ [(k, v)]"
  by (induction al) auto

lemma continue_exploring_fields:
  assumes "user_response t \<noteq> []"
  shows "conversation_id (fst (continue_exploring loads dumps t s)) = conversation_id s"
    and "current_phase (fst (continue_exploring loads dumps t s)) = current_phase s"
    and "responses (fst (continue_exploring loads dumps t s)) =
           AList.update (length (responses s)) (user_response t) (responses s)"
    and "explored_depths (fst (continue_exploring loads dumps t s)) =
           explored_depths s @ [analyze_response_depth loads (groq_analysis t) (user_response t)]"
    and "essay_draft (fst (continue_exploring loads dumps t s)) =
           (if length (explored_depths s) < 4 then essay_draft s
            else Some (generate_intimate_essay dumps (groq_followup t)
                   (explored_depths s @
                    [analyze_response_depth loads (groq_analysis t) (user_response t)])))"
    and "current_question (fst (continue_exploring loads dumps t s)) =
           (if length (explored_depths s) < 4
            then (case dumps (analyze_response_depth loads (groq_analysis t) (user_response t)) of
                    None \<Rightarrow> current_question s
                  | Some serialized \<Rightarrow>
                      Some (generate_compassionate_question (groq_followup t) (Some serialized)))
            else current_question s)"
    and "snd (continue_exploring loads dumps t s) =
           (if length (explored_depths s) < 4 \<and>
               dumps (analyze_response_depth loads (groq_analysis t) (user_response t)) = None
            then Some EncoderError else None)"
  using assms by (auto simp: continue_exploring_def Let_def split: option.split)

lemma continue_exploring_empty:
  "user_response t = [] \<Longrightarrow> continue_exploring loads dumps t s = (s, None)"
  by (simp add: continue_exploring_def)

lemma settled_responses: "settled s \<Longrightarrow> length (responses s) = length (explored_depths s)"
  unfolding settled_def by (metis length_map length_upt minus_nat.diff_0)

lemma continue_exploring_settled:
  assumes "settled s"
  shows "settled (fst (continue_exploring loads dumps t s))"
proof (cases "user_response t = []")
  case True
  then show ?thesis using assms by (simp add: continue_exploring_empty)
next
  case False
  have len: "length (responses s) = length (explored_depths s)"
    using assms by (rule settled_responses)
  have keys: "map fst (responses s) = [0..<length (explored_depths s)]"
    using assms by (simp add: settled_def)
  have "length (responses s) \<notin> set (map fst (responses s))"
    by (simp only: keys len) simp
  then have "AList.update (length (responses s)) (user_response t) (responses s)
      = responses s @ [(length (responses s), user_response t)]"
    by (rule update_fresh_key)
  with False assms keys len show ?thesis
    by (auto simp: settled_def continue_exploring_fields)
qed

section \<open>Runs preserve the invariant\<close>

lemma settled_initial: "settled_store store \<Longrightarrow> settled (initialize_conversation_state uuid store)"
  by (cases store) (simp_all add: settled_store_def settled_def initialize_conversation_state_def)

lemma insights_initial:
  "explored_depths (initialize_conversation_state uuid store) = insights_of store"
  by (cases store) (simp_all add: insights_of_def initialize_conversation_state_def)

lemma interactive_exploration_settled:
  assumes "settled s"
  shows "interactive_exploration loads dumps t s =
           (if button t
            then continue_exploring loads dumps t
                   (s\<lparr>current_question :=
                        Some (generate_compassionate_question (groq_opening t) None)\<rparr>)
            else (s\<lparr>current_question :=
                        Some (generate_compassionate_question (groq_opening t) None)\<rparr>, None))"
  using assms by (simp add: interactive_exploration_def settled_def)

lemma settled_question: "settled s \<Longrightarrow> settled (s\<lparr>current_question := q\<rparr>)"
  by (simp add: settled_def)

lemma main_settled:
  assumes "settled_store store"
  shows "settled (fst (main loads dumps t store)) \<and>
         length (explored_depths (fst (main loads dumps t store))) =
           length (insights_of store) + (if accepted t then 1 else 0)"
proof -
  let ?s0 = "initialize_conversation_state (fresh_uuid t) store"
  let ?s1 = "?s0\<lparr>current_question :=
                  Some (generate_compassionate_question (groq_opening t) None)\<rparr>"
  have s0: "settled ?s0" using assms by (rule settled_initial)
  then have s1: "settled ?s1" by (rule settled_question)
  have run: "main loads dumps t store =
      (if button t then continue_exploring loads dumps t ?s1 else (?s1, None))"
    unfolding main_def using s0 by (rule interactive_exploration_settled)
  show ?thesis
  proof (cases "accepted t")
    case True
    then have "main loads dumps t store = continue_exploring loads dumps t ?s1"
      using run by (simp add: accepted_def)
    moreover have "settled (fst (continue_exploring loads dumps t ?s1))"
      using s1 by (rule continue_exploring_settled)
    moreover have "length (explored_depths (fst (continue_exploring loads dumps t ?s1))) =
        length (insights_of store) + 1"
      using True by (simp add: accepted_def continue_exploring_fields insights_initial)
    ultimately show ?thesis using True by simp
  next
    case False
    then have "main loads dumps t store = (?s1, None)"
      using run by (auto simp: accepted_def continue_exploring_empty)
    then show ?thesis using False s1 by (simp add: insights_initial)
  qed
qed

lemma reruns_settled:
  assumes "settled_store store"
  shows "settled_store (reruns loads dumps store ts) \<and>
         (ts \<noteq> [] \<longrightarrow> reruns loads dumps store ts \<noteq> None) \<and>
         length (insights_of (reruns loads dumps store ts)) =
           length (insights_of store) + length (filter accepted ts)"
  using assms
proof (induction ts arbitrary: store)
  case Nil
  then show ?case by simp
next
  case (Cons t ts)
  let ?s = "fst (main loads dumps t store)"
  from main_settled[OF Cons.prems, of loads dumps t]
  have s: "settled ?s"
    "length (explored_depths ?s) = length (insights_of store) + (if accepted t then 1 else 0)"
    by simp_all
  have "settled_store (Some ?s)" using s(1) by (simp add: settled_store_def)
  from Cons.IH[OF this]
  have st: "settled_store (reruns loads dumps (Some ?s) ts)"
    "ts \<noteq> [] \<longrightarrow> reruns loads dumps (Some ?s) ts \<noteq> None"
    "length (insights_of (reruns loads dumps (Some ?s) ts)) =
       length (insights_of (Some ?s)) + length (filter accepted ts)"
    by simp_all
  have "reruns loads dumps (Some ?s) ts \<noteq> None"
    using st(2) by (cases ts) auto
  with s st show ?case
    by (auto simp: insights_of_def)
qed

lemma reruns_fresh:
  "\<exists>s. reruns loads dumps None (t # ts) = Some s \<and> settled s \<and>
     length (explored_depths s) = length (filter accepted (t # ts))"
proof -
  have "settled_store None" by (simp add: settled_store_def)
  from reruns_settled[OF this, of loads dumps "t # ts"]
  have st: "settled_store (reruns loads dumps None (t # ts))"
    "reruns loads dumps None (t # ts) \<noteq> None"
    "length (insights_of (reruns loads dumps None (t # ts))) =
       length (insights_of None) + length (filter accepted (t # ts))"
    by simp_all
  then obtain s where "reruns loads dumps None (t # ts) = Some s" by auto
  with st show ?thesis
    by (auto simp: settled_store_def insights_of_def)
qed

lemma reruns_Some:
  assumes "reruns loads dumps None ts = Some s"
  shows "settled s \<and> length (explored_depths s) = length (filter accepted ts)"
proof (cases ts)
  case Nil
  then show ?thesis using assms by simp
next
  case (Cons t ts')
  from reruns_fresh[of loads dumps t ts'] assms Cons show ?thesis by auto
qed

lemma main_on_settled:
  assumes "settled s"
  shows "main loads dumps t (Some s) =
           (if button t
            then continue_exploring loads dumps t
                   (s\<lparr>current_question :=
                        Some (generate_compassionate_question (groq_opening t) None)\<rparr>)
            else (s\<lparr>current_question :=
                        Some (generate_compassionate_question (groq_opening t) None)\<rparr>, None))"
  using interactive_exploration_settled[OF assms]
  by (simp add: main_def initialize_conversation_state_def)

lemma submission_on_settled:
  assumes "settled s" and "user_response t \<noteq> []"
  shows "responses (fst (continue_exploring loads dumps t s)) =
           responses s @ [(length (responses s), user_response t)]"
proof -
  have "length (responses s) \<notin> set (map fst (responses s))"
    using assms(1) settled_responses[OF assms(1)] by (simp add: settled_def)
  then show ?thesis
    using assms(2) by (simp add: continue_exploring_fields update_fresh_key)
qed

lemma main_exception:
  assumes "settled s"
  shows "snd (main loads dumps t (Some s)) =
           (if accepted t \<and> length (explored_depths s) < 4 \<and>
               dumps (analyze_response_depth loads (groq_analysis t) (user_response t)) = None
            then Some EncoderError else None)"
proof (cases "user_response t = []")
  case True
  then show ?thesis
    using main_on_settled[OF assms, of loads dumps t]
    by (simp add: accepted_def continue_exploring_empty)
next
  case False
  then show ?thesis
    using main_on_settled[OF assms, of loads dumps t]
    by (simp add: accepted_def continue_exploring_fields)
qed



lemma depth_nested: "depth (nested n) = Suc n"
  by (induction n) simp_all

lemma depth_fallback: "depth fallback_insight = 2"
  by (simp add: fallback_insight_def)

lemma dumps_fallback: "2 \<le> limit \<Longrightarrow> dumps_within limit fallback_insight = Some (dumps_text fallback_insight)"
  by (simp add: dumps_within_def depth_fallback)

section \<open>The example runs\<close>

lemma question_when_down: "generate_compassionate_question down ctx = fallback_question"
  by (simp add: generate_compassionate_question_eq down_def)

lemma question_when_answered: "generate_compassionate_question (answers c) ctx = strip c"
  by (simp add: generate_compassionate_question_eq answers_def)

lemma essay_when_down:
  "generate_intimate_essay dumps down insights = fallback_essay"
  by (simp add: generate_intimate_essay_eq down_def)

lemma essay_when_answered:
  "dumps (PList insights) \<noteq> None \<Longrightarrow>
   generate_intimate_essay dumps (answers c) insights = strip c"
  by (cases "dumps (PList insights)") (simp_all add: generate_intimate_essay_eq answers_def)

lemma analysis_when_down: "analyze_response_depth loads down response = fallback_insight"
  by (simp add: analyze_response_depth_def down_def)

lemma analysis_when_answered:
  "analyze_response_depth loads (answers c) response =
     (case loads c of None \<Rightarrow> fallback_insight | Some v \<Rightarrow> v)"
  by (simp add: analyze_response_depth_def answers_def)

lemma dumps_insights:
  "dumps_within 990 (PList [fallback_insight, fallback_insight, fallback_insight,
     fallback_insight, fallback_insight]) \<noteq> None"
  "dumps_within 990 (PList [fallback_insight, fallback_insight, fallback_insight,
     fallback_insight, fallback_insight, fallback_insight]) \<noteq> None"
  "dumps_within 990 (PList [fallback_insight]) \<noteq> None"
  by (simp_all add: dumps_within_def depth_fallback)

lemmas run_simps =
  main_def initialize_conversation_state_def interactive_exploration_def
  continue_exploring_def Let_def submission_def visit_def
  question_when_down question_when_answered essay_when_down essay_when_answered
  analysis_when_down analysis_when_answered dumps_fallback dumps_insights
  strip_def isspace_def

lemma visit_opens: "main loads dumps (visit down) None = (opened, None)"
  by (simp add: run_simps opened_def)

lemma reruns_four: "reruns loads (dumps_within 990) None four_submissions = Some after_four"
  by (simp add: four_submissions_def after_four_def run_simps)

lemma main_fifth:
  "main loads (dumps_within 990) fifth_submission (Some after_four) = (after_five, None)"
  by (simp add: fifth_submission_def after_four_def after_five_def run_simps)

lemma main_sixth:
  "main loads (dumps_within 990) sixth_submission (Some after_five) = (after_six, None)"
  by (simp add: sixth_submission_def after_five_def after_six_def run_simps)

lemma reruns_append:
  "reruns loads dumps store (ts @ [t]) =
     Some (fst (main loads dumps t (reruns loads dumps store ts)))"
  by (induction ts arbitrary: store) simp_all

lemma reruns_five:
  "reruns loads (dumps_within 990) None (four_submissions @ [fifth_submission]) = Some after_five"
  by (simp add: reruns_append reruns_four main_fifth)

section \<open>The claims\<close>

subsection \<open>C1: the fifth submission and those after it\<close>

text \<open>
  Claim C1, as the code has it. In the store a sequence of runs leaves, the essay is unset
  exactly while fewer than five submissions were taken. A submission taken when four or
  more came before it (the fifth, and every later one) ends without an exception, stores
  the response under the next index, appends its insight and sets the essay to a
  synthesis over all insights recorded so far: a sixth submission is handled like the
  fifth.
\<close>

theorem essay_at_fifth_and_after:
  assumes "reruns loads dumps None ts = Some s"
  shows "(essay_draft s = None) = (length (filter accepted ts) < 5) \<and>
         (accepted t \<and> 4 \<le> length (filter accepted ts) \<longrightarrow>
            (\<exists>s'. main loads dumps t (Some s) = (s', None) \<and>
               responses s' = responses s @ [(length (responses s), user_response t)] \<and>
               explored_depths s' =
                 explored_depths s @
                 [analyze_response_depth loads (groq_analysis t) (user_response t)] \<and>
               essay_draft s' =
                 Some (generate_intimate_essay dumps (groq_followup t) (explored_depths s'))))"
proof -
  have s: "settled s" and n: "length (explored_depths s) = length (filter accepted ts)"
    using reruns_Some[OF assms] by simp_all
  let ?s1 = "s\<lparr>current_question :=
                  Some (generate_compassionate_question (groq_opening t) None)\<rparr>"
  let ?out = "continue_exploring loads dumps t ?s1"
  have s1: "settled ?s1" using s by (rule settled_question)
  have "main loads dumps t (Some s) = (fst ?out, None) \<and>
      responses (fst ?out) = responses s @ [(length (responses s), user_response t)] \<and>
      explored_depths (fst ?out) =
        explored_depths s @ [analyze_response_depth loads (groq_analysis t) (user_response t)] \<and>
      essay_draft (fst ?out) =
        Some (generate_intimate_essay dumps (groq_followup t) (explored_depths (fst ?out)))"
    if t: "accepted t" and four: "4 \<le> length (filter accepted ts)"
  proof -
    have typed: "user_response t \<noteq> []" and press: "button t"
      using t by (simp_all add: accepted_def)
    have "snd ?out = None"
      using typed four n by (simp add: continue_exploring_fields)
    then have "?out = (fst ?out, None)" by (simp add: prod_eq_iff)
    then have "main loads dumps t (Some s) = (fst ?out, None)"
      using main_on_settled[OF s, of loads dumps t] press by simp
    then show ?thesis
      using submission_on_settled[OF s1 typed, of loads dumps] typed four n
      by (simp add: continue_exploring_fields)
  qed
  then show ?thesis
    using s n by (auto simp: settled_def)
qed

text \<open>
  The example session after five submissions, and its sixth.
\<close>

theorem essay_at_fifth_and_after_witness:
  "essay_draft after_five \<noteq> None \<and>
   (\<exists>s'. main loads_sample (dumps_within 990) sixth_submission (Some after_five) = (s', None) \<and>
      responses s' = responses after_five @ [(length (responses after_five), ''f'')] \<and>
      essay_draft s' =
        Some (generate_intimate_essay (dumps_within 990) (answers ''Essay two'')
                (explored_depths s')))"
proof -
  have "accepted sixth_submission"
    by (simp add: accepted_def sixth_submission_def submission_def)
  moreover have "length (filter accepted (four_submissions @ [fifth_submission])) = 5"
    by (simp add: accepted_def four_submissions_def fifth_submission_def submission_def)
  ultimately show ?thesis
    using essay_at_fifth_and_after[OF reruns_five[of loads_sample], of sixth_submission]
    by (auto simp: sixth_submission_def submission_def)
qed

text \<open>
  Claim C1 as stated fails on the example session: after five submissions the phase does
  not read \<^verbatim>\<open>complete\<close>, and the sixth stores a sixth response, appends a sixth insight
  and replaces the essay.
\<close>

theorem sixth_submission_resynthesizes:
  "reruns loads_sample (dumps_within 990) None (four_submissions @ [fifth_submission])
     = Some after_five \<and>
   main loads_sample (dumps_within 990) sixth_submission (Some after_five) = (after_six, None) \<and>
   current_phase after_five \<noteq> ''complete'' \<and>
   length (responses after_five) = 5 \<and> length (responses after_six) = 6 \<and>
   length (explored_depths after_five) = 5 \<and> length (explored_depths after_six) = 6 \<and>
   essay_draft after_five = Some ''Essay one'' \<and> essay_draft after_six = Some ''Essay two''"
  by (simp add: reruns_five main_sixth) (simp add: after_five_def after_six_def)

subsection \<open>C2: the opening question\<close>

text \<open>
  Claim C2, as the code has it. A run that takes no submission, on an empty store, ends
  without an exception and leaves no response, no insight, no essay, and the question the
  generator gives for no context: the fallback question (which is not empty) when the
  call raises, else the text of the service stripped, which is empty exactly when that
  text is blank.
\<close>

theorem opening_question:
  assumes "\<not> accepted t"
  shows "\<exists>rq s. question_request None = Some rq \<and>
     main loads dumps t None = (s, None) \<and>
     current_question s =
       Some (case groq_opening t rq of
               Raised \<Rightarrow> fallback_question
             | Completion c \<Rightarrow> strip c) \<and>
     responses s = [] \<and> explored_depths s = [] \<and> essay_draft s = None \<and>
     fallback_question \<noteq> [] \<and>
     (\<forall>c. (strip c = []) = list_all isspace c)"
proof -
  obtain rq where rq: "question_request None = Some rq"
    using question_request_defined by blast
  let ?q = "case groq_opening t rq of Raised \<Rightarrow> fallback_question | Completion c \<Rightarrow> strip c"
  let ?s = "(initialize_conversation_state (fresh_uuid t) None)\<lparr>current_question := Some ?q\<rparr>"
  have q: "generate_compassionate_question (groq_opening t) None = ?q"
    using rq by (simp add: generate_compassionate_question_def)
  have "settled (initialize_conversation_state (fresh_uuid t) None)"
    by (rule settled_initial) (simp add: settled_store_def)
  from interactive_exploration_settled[OF this, of loads dumps t] assms q
  have first: "main loads dumps t None = (?s, None)"
    by (auto simp: main_def accepted_def continue_exploring_empty)
  have "fallback_question \<noteq> []" by (simp add: fallback_question_def)
  with rq first show ?thesis
    using strip_blank by (auto simp: initialize_conversation_state_def)
qed

text \<open>
  A first page load with the service down, and one with the service up.
\<close>

theorem opening_question_witness:
  "(\<exists>s. main loads_sample (dumps_within 990) (visit down) None = (s, None) \<and>
        current_question s = Some fallback_question) \<and>
   (\<exists>s. main loads_sample (dumps_within 990) (visit (answers '' How are you? '')) None
          = (s, None) \<and>
        current_question s = Some ''How are you?'')"
proof -
  have idle: "\<not> accepted (visit groq)" for groq
    by (simp add: accepted_def visit_def)
  have s: "strip '' How are you? '' = ''How are you?''"
    by (simp add: strip_def isspace_def)
  from opening_question[OF idle, of loads_sample "dumps_within 990" down]
  have a: "\<exists>s. main loads_sample (dumps_within 990) (visit down) None = (s, None) \<and>
        current_question s = Some fallback_question"
    by (auto simp: visit_def down_def)
  from opening_question[OF idle, of loads_sample "dumps_within 990" "answers '' How are you? ''"] s
  have b: "\<exists>s. main loads_sample (dumps_within 990) (visit (answers '' How are you? '')) None
          = (s, None) \<and>
        current_question s = Some ''How are you?''"
    by (auto simp: visit_def answers_def)
  from a b show ?thesis by simp
qed

text \<open>
  Claim C2 as stated fails: when the service answers with a blank text the first
  question is empty; the phase does not read \<^verbatim>\<open>exploring\<close>; and a second page load
  replaces the question that is present.
\<close>

theorem blank_opening_question:
  "main loads_sample (dumps_within 990) (visit (answers '' '')) None
     = (opened\<lparr>current_question := Some []\<rparr>, None) \<and>
   current_phase (opened\<lparr>current_question := Some []\<rparr>) \<noteq> ''exploring'' \<and>
   main loads_sample (dumps_within 990) (visit down) None = (opened, None) \<and>
   main loads_sample (dumps_within 990) (visit (answers ''Again?'')) (Some opened)
     = (opened\<lparr>current_question := Some ''Again?''\<rparr>, None) \<and>
   opened\<lparr>current_question := Some ''Again?''\<rparr> \<noteq> opened"
  by (simp add: run_simps opened_def fallback_question_def)

subsection \<open>C3: when the essay is set\<close>

text \<open>
  Claim C3, as the code has it: in every store a sequence of runs leaves, the essay is set
  if and only if at least five insights have been recorded.
\<close>

theorem essay_set_from_five_insights:
  assumes "reruns loads dumps None ts = Some s"
  shows "(essay_draft s \<noteq> None) = (5 \<le> length (explored_depths s))"
  using reruns_Some[OF assms] by (auto simp: settled_def)

text \<open>
  The example session after five submissions and after four.
\<close>

theorem essay_set_from_five_insights_witness:
  "(essay_draft after_five \<noteq> None) = (5 \<le> length (explored_depths after_five)) \<and>
   (essay_draft after_four \<noteq> None) = (5 \<le> length (explored_depths after_four))"
  using essay_set_from_five_insights[OF reruns_five[of loads_sample]]
        essay_set_from_five_insights[OF reruns_four[of loads_sample]]
  by simp

text \<open>
  Claim C3 as stated fails: after five submissions the essay is set and the phase does not
  read \<^verbatim>\<open>complete\<close> (no line of the script writes \<^verbatim>\<open>current_phase\<close>).
\<close>

theorem essay_without_complete_phase:
  "reruns loads_sample (dumps_within 990) None (four_submissions @ [fifth_submission])
     = Some after_five \<and>
   \<not> ((essay_draft after_five \<noteq> None) = (current_phase after_five = ''complete''))"
  by (simp add: reruns_five) (simp add: after_five_def)

subsection \<open>C4: the context of a question\<close>

text \<open>
  Claim C4 on the code: the request of the question generator is the same with a
  context and without one. \<^verbatim>\<open>system_prompt\<close> has no replacement field, so
  \<^verbatim>\<open>system_prompt.format(context=...)\<close> is \<^verbatim>\<open>system_prompt\<close>, and the context reaches
  neither the request nor the question.
\<close>

theorem context_dropped_from_request:
  "question_request (Some c) = question_request None \<and>
   (\<exists>rq. question_request (Some c) = Some rq \<and>
      map content (messages rq) =
        [system_prompt,
         ''Craft a question that feels like a warm, curious invitation to share.'']) \<and>
   generate_compassionate_question groq (Some c) = generate_compassionate_question groq None"
  by (simp add: question_request_any[of "Some c"] generate_compassionate_question_eq)
     (simp add: question_request_def format_system_prompt)

subsection \<open>C5: empty and blank submissions\<close>

text \<open>
  Claim C5, as the code has it. With an empty text area the body of the button changes
  nothing and raises nothing, and a whole run on a store that runs have left keeps the
  responses, the insights, the phase and the essay. A press of the button with any text
  that is not empty, a blank one too, appends the response and its insight; the run ends
  without an exception unless \<^verbatim>\<open>json.dumps\<close> raises at line 209, which the branch below
  five insights reaches.
\<close>

theorem empty_text_ignored:
  "(user_response t = [] \<longrightarrow> continue_exploring loads dumps t s = (s, None)) \<and>
   (reruns loads dumps None ts = Some s0 \<and> user_response t = [] \<longrightarrow>
      (\<exists>s'. main loads dumps t (Some s0) = (s', None) \<and>
         responses s' = responses s0 \<and> explored_depths s' = explored_depths s0 \<and>
         current_phase s' = current_phase s0 \<and> essay_draft s' = essay_draft s0)) \<and>
   (reruns loads dumps None ts = Some s0 \<and> button t \<and> user_response t \<noteq> [] \<longrightarrow>
      (\<exists>s'. main loads dumps t (Some s0) =
              (s', if length (explored_depths s0) < 4 \<and>
                      dumps (analyze_response_depth loads (groq_analysis t) (user_response t))
                        = None
                   then Some EncoderError else None) \<and>
         responses s' = responses s0 @ [(length (responses s0), user_response t)] \<and>
         explored_depths s' =
           explored_depths s0 @
           [analyze_response_depth loads (groq_analysis t) (user_response t)]))"
proof -
  have a: "user_response t = [] \<longrightarrow> continue_exploring loads dumps t s = (s, None)"
    by (simp add: continue_exploring_empty)
  have b: "\<exists>s'. main loads dumps t (Some s0) = (s', None) \<and>
         responses s' = responses s0 \<and> explored_depths s' = explored_depths s0 \<and>
         current_phase s' = current_phase s0 \<and> essay_draft s' = essay_draft s0"
    if run: "reruns loads dumps None ts = Some s0" and empty: "user_response t = []"
  proof -
    have "settled s0" using reruns_Some[OF run] by simp
    from main_on_settled[OF this, of loads dumps t] empty show ?thesis
      by (simp add: continue_exploring_empty)
  qed
  have c: "\<exists>s'. main loads dumps t (Some s0) =
              (s', if length (explored_depths s0) < 4 \<and>
                      dumps (analyze_response_depth loads (groq_analysis t) (user_response t))
                        = None
                   then Some EncoderError else None) \<and>
         responses s' = responses s0 @ [(length (responses s0), user_response t)] \<and>
         explored_depths s' =
           explored_depths s0 @
           [analyze_response_depth loads (groq_analysis t) (user_response t)]"
    if run: "reruns loads dumps None ts = Some s0" and press: "button t"
      and typed: "user_response t \<noteq> []"
  proof -
    let ?s1 = "s0\<lparr>current_question :=
                  Some (generate_compassionate_question (groq_opening t) None)\<rparr>"
    have s0: "settled s0" using reruns_Some[OF run] by simp
    then have s1: "settled ?s1" by (rule settled_question)
    have "snd (main loads dumps t (Some s0)) =
        (if length (explored_depths s0) < 4 \<and>
            dumps (analyze_response_depth loads (groq_analysis t) (user_response t)) = None
         then Some EncoderError else None)"
      using main_exception[OF s0, of loads dumps t] press typed by (simp add: accepted_def)
    moreover have "fst (main loads dumps t (Some s0)) = fst (continue_exploring loads dumps t ?s1)"
      using main_on_settled[OF s0, of loads dumps t] press by simp
    ultimately have run: "main loads dumps t (Some s0) =
        (fst (continue_exploring loads dumps t ?s1),
         if length (explored_depths s0) < 4 \<and>
            dumps (analyze_response_depth loads (groq_analysis t) (user_response t)) = None
         then Some EncoderError else None)"
      by (simp add: prod_eq_iff)
    show ?thesis
      unfolding run
      using submission_on_settled[OF s1 typed, of loads dumps] typed
      by (simp add: continue_exploring_fields)
  qed
  from a b c show ?thesis by blast
qed

text \<open>
  An empty submission and a submission of one space, after the first page load.
\<close>

theorem empty_text_ignored_witness:
  "continue_exploring loads_sample (dumps_within 990) (submission [] down down) opened
     = (opened, None) \<and>
   main loads_sample (dumps_within 990) (submission [] down down) (Some opened)
     = (opened, None) \<and>
   (\<exists>s'. main loads_sample (dumps_within 990) (submission '' '' down down) (Some opened)
          = (s', None) \<and>
      responses s' = [(0, '' '')] \<and> explored_depths s' = [fallback_insight])"
proof -
  have r: "reruns loads_sample (dumps_within 990) None [visit down] = Some opened"
    by (simp add: visit_opens)
  have e: "user_response (submission [] down down) = []"
    and p: "button (submission '' '' down down) \<and> user_response (submission '' '' down down) \<noteq> []"
    by (simp_all add: submission_def)
  have m: "main loads_sample (dumps_within 990) (submission [] down down) (Some opened)
      = (opened, None)"
    by (simp add: run_simps opened_def)
  from empty_text_ignored[of "submission [] down down" loads_sample "dumps_within 990" opened
      "[visit down]" opened] e
  have "continue_exploring loads_sample (dumps_within 990) (submission [] down down) opened
      = (opened, None)"
    by blast
  moreover
  from empty_text_ignored[of "submission '' '' down down" loads_sample "dumps_within 990" opened
      "[visit down]" opened] r p
  have "\<exists>s'. main loads_sample (dumps_within 990) (submission '' '' down down) (Some opened)
          = (s', None) \<and>
      responses s' = responses opened @ [(length (responses opened), '' '')] \<and>
      explored_depths s' = explored_depths opened @ [fallback_insight]"
    by (simp add: submission_def analysis_when_down dumps_fallback)
  then have "\<exists>s'. main loads_sample (dumps_within 990) (submission '' '' down down) (Some opened)
          = (s', None) \<and>
      responses s' = [(0, '' '')] \<and> explored_depths s' = [fallback_insight]"
    by (simp add: opened_def)
  ultimately show ?thesis using m by blast
qed

text \<open>
  Claim C5 as stated fails for three spaces: the test of line 194 is on emptiness, so the
  text is stored and analysed.
\<close>

theorem blank_text_accepted:
  "main loads_sample (dumps_within 990) (visit down) None = (opened, None) \<and>
   main loads_sample (dumps_within 990) (submission ''   '' down down) (Some opened)
     = (opened\<lparr>responses := [(0, ''   '')], explored_depths := [fallback_insight]\<rparr>, None) \<and>
   continue_exploring loads_sample (dumps_within 990) (submission ''   '' down down) opened
     = (opened\<lparr>responses := [(0, ''   '')], explored_depths := [fallback_insight]\<rparr>, None) \<and>
   \<not> (responses (fst (continue_exploring loads_sample (dumps_within 990)
                     (submission ''   '' down down) opened))
          = responses opened \<and>
        explored_depths (fst (continue_exploring loads_sample (dumps_within 990)
                     (submission ''   '' down down) opened))
          = explored_depths opened)"
  by (simp add: run_simps opened_def)

subsection \<open>C6: the shape of an insight\<close>

text \<open>
  Claim C6, as the code has it: the value the analyzer returns is a complete insight
  record on the fallback path (the call raised, or the content did not decode); when the
  content decodes, it is the decoded value as it is, complete exactly when the service
  made it so.
\<close>

theorem analysis_complete_iff:
  "is_insight_record (analyze_response_depth loads groq response) =
     (case groq (analysis_request response) of
        Raised \<Rightarrow> True
      | Completion c \<Rightarrow>
          (case loads c of None \<Rightarrow> True | Some v \<Rightarrow> is_insight_record v))"
proof -
  have "is_insight_record fallback_insight"
    by (simp add: is_insight_record_def fallback_insight_def insight_fields_def)
  then show ?thesis
    by (simp add: analyze_response_depth_def split: reply.split option.split)
qed

text \<open>
  Claim C6 as stated fails when the service answers with the empty JSON object: the
  analyzer returns the empty dictionary.
\<close>

theorem analysis_of_empty_object:
  "analyze_response_depth loads_sample (answers ''{}'') ''I grew up by the sea.'' = PDict [] \<and>
   \<not> is_insight_record
        (analyze_response_depth loads_sample (answers ''{}'') ''I grew up by the sea.'')"
  by (simp add: analysis_when_answered loads_sample_def is_insight_record_def insight_fields_def)

subsection \<open>C7: the fallback insight\<close>

text \<open>
  Claim C7, as the code has it: when the call raises or the content is not JSON, the
  analyzer returns the fallback record; content that decodes is returned as decoded,
  whatever its fields.
\<close>

theorem analysis_fallback:
  "(groq (analysis_request response) = Raised \<or>
    (\<exists>c. groq (analysis_request response) = Completion c \<and> loads c = None) \<longrightarrow>
      analyze_response_depth loads groq response = fallback_insight) \<and>
   (\<forall>c v. groq (analysis_request response) = Completion c \<and> loads c = Some v \<longrightarrow>
      analyze_response_depth loads groq response = v)"
  by (auto simp: analyze_response_depth_def)

text \<open>
  The service down, a reply that is not JSON, and a reply with one field.
\<close>

theorem analysis_fallback_witness:
  \<open>analyze_response_depth loads_sample down ''I grew up by the sea.'' = fallback_insight \<and>
   analyze_response_depth loads_sample (answers ''not json'') ''I grew up by the sea.''
     = fallback_insight \<and>
   analyze_response_depth loads_sample (answers ''{"emotional_themes": ["Joy"]}'')
     ''I grew up by the sea.'' = PDict [(''emotional_themes'', PList [PStr ''Joy''])]\<close>
proof -
  have a: "down (analysis_request ''I grew up by the sea.'') = Raised"
    by (simp add: down_def)
  have b: "answers ''not json'' (analysis_request ''I grew up by the sea.'') = Completion ''not json''
      \<and> loads_sample ''not json'' = None"
    by (simp add: answers_def loads_sample_def)
  have c: \<open>answers ''{"emotional_themes": ["Joy"]}'' (analysis_request ''I grew up by the sea.'')
        = Completion ''{"emotional_themes": ["Joy"]}'' \<and>
      loads_sample ''{"emotional_themes": ["Joy"]}''
        = Some (PDict [(''emotional_themes'', PList [PStr ''Joy''])])\<close>
    by (simp add: answers_def loads_sample_def)
  show ?thesis
    using analysis_fallback[of down "''I grew up by the sea.''" loads_sample] a
      analysis_fallback[of "answers ''not json''" "''I grew up by the sea.''" loads_sample] b
      analysis_fallback[of \<open>answers ''{"emotional_themes": ["Joy"]}''\<close>
        "''I grew up by the sea.''" loads_sample] c
    by blast
qed

text \<open>
  Claim C7 as stated fails for JSON that has only one of the four fields: the analyzer
  returns it, not the fallback record.
\<close>

theorem analysis_of_partial_object:
  \<open>analyze_response_depth loads_sample (answers ''{"emotional_themes": ["Joy"]}'')
     ''I grew up by the sea.'' = PDict [(''emotional_themes'', PList [PStr ''Joy''])] \<and>
   analyze_response_depth loads_sample (answers ''{"emotional_themes": ["Joy"]}'')
     ''I grew up by the sea.'' \<noteq> fallback_insight\<close>
  by (simp add: analysis_when_answered loads_sample_def fallback_insight_def)

subsection \<open>C8: responses and insights\<close>



subsection \<open>C9: the essay\<close>

text \<open>
  Claim C9, as the code has it. The synthesizer never raises. When \<^verbatim>\<open>json.dumps\<close> raises
  on the insights no request is built and the essay is the fallback essay. Otherwise the
  request is built; when the call raises the essay is the fallback essay, and when the
  call returns a text the essay is that text stripped, empty exactly when the text is
  blank. The fallback essay is not empty.
\<close>

theorem essay_text:
  "(dumps (PList insights) = None \<longrightarrow>
      essay_request dumps insights = None \<and>
      generate_intimate_essay dumps groq insights = fallback_essay) \<and>
   (dumps (PList insights) \<noteq> None \<longrightarrow>
      (\<exists>rq. essay_request dumps insights = Some rq \<and>
         (groq rq = Raised \<longrightarrow>
            generate_intimate_essay dumps groq insights = fallback_essay) \<and>
         (\<forall>c. groq rq = Completion c \<longrightarrow>
            generate_intimate_essay dumps groq insights = strip c \<and>
            (strip c = []) = list_all isspace c))) \<and>
   fallback_essay \<noteq> []"
proof -
  have a: "essay_request dumps insights = None \<and>
      generate_intimate_essay dumps groq insights = fallback_essay"
    if "dumps (PList insights) = None"
  proof -
    have "essay_request dumps insights = None"
      using that by (simp add: essay_request_None)
    then show ?thesis by (simp add: generate_intimate_essay_def)
  qed
  have b: "\<exists>rq. essay_request dumps insights = Some rq \<and>
         (groq rq = Raised \<longrightarrow>
            generate_intimate_essay dumps groq insights = fallback_essay) \<and>
         (\<forall>c. groq rq = Completion c \<longrightarrow>
            generate_intimate_essay dumps groq insights = strip c \<and>
            (strip c = []) = list_all isspace c)"
    if "dumps (PList insights) \<noteq> None"
  proof -
    have "essay_request dumps insights \<noteq> None"
      using that by (simp add: essay_request_None)
    then obtain rq where rq: "essay_request dumps insights = Some rq" by auto
    then show ?thesis
      by (auto simp: generate_intimate_essay_def strip_blank)
  qed
  have "fallback_essay \<noteq> []" by (simp add: fallback_essay_def)
  with a b show ?thesis by blast
qed

text \<open>
  The service down, a reply with text, a reply of one space, and an insight nested too
  deep for the encoder.
\<close>

theorem essay_text_witness:
  "generate_intimate_essay (dumps_within 990) down [fallback_insight] = fallback_essay \<and>
   generate_intimate_essay (dumps_within 990) (answers '' My story. '') [fallback_insight]
     = ''My story.'' \<and>
   generate_intimate_essay (dumps_within 990) (answers '' '') [fallback_insight] = [] \<and>
   generate_intimate_essay (dumps_within 990) (answers '' My story. '') [nested 990]
     = fallback_essay"
proof -
  have s1: "strip '' My story. '' = ''My story.''" and s2: "strip '' '' = []"
    by (simp_all add: strip_def isspace_def)
  have ok: "dumps_within 990 (PList [fallback_insight]) \<noteq> None"
    by (rule dumps_insights)
  have deep: "dumps_within 990 (PList [nested 990]) = None"
    by (simp add: dumps_within_def depth_nested)
  from essay_text[of "dumps_within 990" "[fallback_insight]" down] ok
  have a: "generate_intimate_essay (dumps_within 990) down [fallback_insight] = fallback_essay"
    by (auto simp: down_def)
  from essay_text[of "dumps_within 990" "[fallback_insight]" "answers '' My story. ''"] ok s1
  have b: "generate_intimate_essay (dumps_within 990) (answers '' My story. '') [fallback_insight]
     = ''My story.''"
    by (auto simp: answers_def)
  from essay_text[of "dumps_within 990" "[fallback_insight]" "answers '' ''"] ok s2
  have c: "generate_intimate_essay (dumps_within 990) (answers '' '') [fallback_insight] = []"
    by (auto simp: answers_def)
  from essay_text[of "dumps_within 990" "[nested 990]" "answers '' My story. ''"] deep
  have d: "generate_intimate_essay (dumps_within 990) (answers '' My story. '') [nested 990]
     = fallback_essay"
    by blast
  from a b c d show ?thesis by simp
qed

text \<open>
  Claim C9 as stated fails when the service answers the synthesis with one space: the
  essay is empty, and the fifth submission of the example session stores it.
\<close>

theorem blank_essay:
  "generate_intimate_essay (dumps_within 990) (answers '' '')
     [fallback_insight, fallback_insight, fallback_insight, fallback_insight, fallback_insight]
   = [] \<and>
   main loads_sample (dumps_within 990) (submission ''e'' down (answers '' '')) (Some after_four)
     = (after_five\<lparr>essay_draft := Some []\<rparr>, None)"
  by (simp add: essay_when_answered dumps_insights strip_def isspace_def)
     (simp add: after_four_def after_five_def run_simps)

subsection \<open>C10: the question after the synthesis run\<close>

text \<open>
  Claim C10 on the code. A run that takes a submission when four or more insights are
  recorded ends without an exception and synthesizes the essay, and the question it
  leaves is the one line 186 requested at the start of that very run: the guard of line
  185 holds in every run, so the question the store held is replaced before the
  synthesis branch is reached.
\<close>

theorem synthesis_run_replaces_question:
  assumes "reruns loads dumps None ts = Some s"
    and "accepted t" and "4 \<le> length (explored_depths s)"
  shows "\<exists>s'. main loads dumps t (Some s) = (s', None) \<and>
           current_question s' =
             Some (generate_compassionate_question (groq_opening t) None) \<and>
           essay_draft s' =
             Some (generate_intimate_essay dumps (groq_followup t) (explored_depths s'))"
proof -
  let ?s1 = "s\<lparr>current_question :=
                  Some (generate_compassionate_question (groq_opening t) None)\<rparr>"
  have s: "settled s" using reruns_Some[OF assms(1)] by simp
  have typed: "user_response t \<noteq> []" and press: "button t"
    using assms(2) by (simp_all add: accepted_def)
  have "snd (main loads dumps t (Some s)) = None"
    using main_exception[OF s, of loads dumps t] assms(3) by simp
  moreover have "fst (main loads dumps t (Some s)) = fst (continue_exploring loads dumps t ?s1)"
    using main_on_settled[OF s, of loads dumps t] press by simp
  ultimately have run: "main loads dumps t (Some s) =
      (fst (continue_exploring loads dumps t ?s1), None)"
    by (simp add: prod_eq_iff)
  show ?thesis
    unfolding run using typed assms(3) by (simp add: continue_exploring_fields)
qed

text \<open>
  The fifth submission of the example session, in a run whose opening call the service
  answers: the store held the follow-up question of the fourth run and is left with the
  new opening question.
\<close>

theorem synthesis_run_replaces_question_witness:
  "current_question after_four = Some ''And then?'' \<and>
   main loads_sample (dumps_within 990) fifth_after_opening (Some after_four)
     = (after_five\<lparr>current_question := Some ''What matters to you?''\<rparr>, None)"
proof -
  have t: "accepted fifth_after_opening"
    by (simp add: accepted_def fifth_after_opening_def)
  have n: "4 \<le> length (explored_depths after_four)"
    by (simp add: after_four_def)
  have m: "main loads_sample (dumps_within 990) fifth_after_opening (Some after_four)
     = (after_five\<lparr>current_question := Some ''What matters to you?''\<rparr>, None)"
    by (simp add: fifth_after_opening_def after_four_def after_five_def run_simps)
  from synthesis_run_replaces_question[OF reruns_four[of loads_sample] t n]
  have "\<exists>s'. main loads_sample (dumps_within 990) fifth_after_opening (Some after_four)
          = (s', None) \<and>
        current_question s' =
          Some (generate_compassionate_question (groq_opening fifth_after_opening) None)"
    by blast
  with m show ?thesis by (simp add: after_four_def)
qed

end
